theory Spec2Isabelle
  imports Complex_Main "HOL-Library.Word" "HOL-Library.Multiset"
begin

section \<open>The collaborators of \<open>DynamicsWorld.cpp\<close>\<close>

text \<open>
  \<open>DynamicsWorld.cpp\<close> drives a physics engine through a handful of calls
  (\<open>addRigidBody\<close>, \<open>removeRigidBody\<close>, \<open>getCollisionObjectArray\<close>,
  \<open>activate\<close>, \<open>stepSimulation\<close>), wraps native bodies in
  \<open>CollisionObject\<close>s and keeps them in a sequence container. None of the three is
  defined in \<open>DynamicsWorld.cpp\<close>; each is modelled here by the contract the
  specification gives for it. Numbers of C++ type \<open>float\<close> and \<open>double\<close> are
  modelled as \<open>real\<close>: rounding, infinities and NaN are outside the model. A pointer is
  an \<open>option\<close>: \<open>None\<close> is the null pointer.
\<close>

subsection \<open>Native bodies and the simulation context\<close>

text \<open>
  Modelled from the spec: the kind of a native collision object, which the engine
  itself can test (section 4.1: ``wake rigid bodies; wake soft bodies''). The engine has
  objects that are neither rigid nor soft bodies.
\<close>

datatype bt_internal_type = RIGID_BODY | SOFT_BODY | OTHER_OBJECT

text \<open>
  Modelled from the spec: the engine's native collision object. The specification
  (sections 3 and 6) gives a native body an identity (the solver keeps a non-owning
  reference to it), a kind and an ``is active'' query. \<open>body_id\<close> is the address of
  the native object; two records with the same \<open>body_id\<close> denote the same native
  object.
\<close>

record btCollisionObject =
  body_id :: nat
  internalType :: bt_internal_type
  isActive :: bool

text \<open>
  Modelled from the spec: the requests that the simulation context of a World serves
  (section 6: register and unregister a rigid body, per-object force-activate, advance
  by horizon, maximal number of sub-steps and sub-step duration). A body is named by its
  address. Registering and unregistering a soft body are requests to a soft-rigid
  context, which the context of a World is not (see \<open>pushBack\<close>).
\<close>

datatype engine_call =
    Call_addRigidBody nat
  | Call_removeRigidBody nat
  | Call_activateRigid nat bool
  | Call_activateSoft nat bool
  | Call_stepSimulation real int real

text \<open>
  Modelled from the spec: the collision configuration, one of the four solver
  substructures. The four are opaque; the World only creates them, hands them to the
  simulation context and deletes them.
\<close>

datatype btDefaultCollisionConfiguration = New_btDefaultCollisionConfiguration

text \<open>
  Modelled from the spec: the dispatcher, a solver substructure, created from a pointer
  to the collision configuration.
\<close>

datatype btCollisionDispatcher =
  New_btCollisionDispatcher "btDefaultCollisionConfiguration option"

text \<open>Modelled from the spec: the broadphase, a solver substructure.\<close>

datatype btBroadphaseInterface = New_btDbvtBroadphase

text \<open>Modelled from the spec: the constraint solver, a solver substructure.\<close>

datatype btConstraintSolver = New_btSequentialImpulseConstraintSolver

text \<open>Modelled from the spec: the engine's vector of three numbers.\<close>

type_synonym btVector3 = "real \<times> real \<times> real"

text \<open>
  Modelled from the spec: the simulation context (section 6: ``an aggregate
  dynamics-context object parameterized by those four''; ``query live object count and
  enumerate live objects''). \<open>m_collisionObjects\<close> is the array of live objects, in
  the order of registration; \<open>calls\<close> is the sequence of requests received so far, in
  the order in which they arrived.
\<close>

record btDiscreteDynamicsWorld =
  m_dispatcher1 :: "btCollisionDispatcher option"
  m_broadphasePairCache :: "btBroadphaseInterface option"
  m_constraintSolver :: "btConstraintSolver option"
  m_collisionConfiguration :: "btDefaultCollisionConfiguration option"
  gravity :: btVector3
  m_enableSPU :: bool
  m_collisionObjects :: "btCollisionObject list"
  calls :: "engine_call list"

text \<open>
  Modelled from the spec: the constructor of the simulation context. A new context has
  no live object and has received no request (section 4.1: ``a ready-to-use World with
  zero registered objects'').
\<close>

definition new_btDiscreteDynamicsWorld ::
  "btCollisionDispatcher option \<Rightarrow> btBroadphaseInterface option \<Rightarrow> btConstraintSolver option \<Rightarrow>
   btDefaultCollisionConfiguration option \<Rightarrow> btDiscreteDynamicsWorld" where
  "new_btDiscreteDynamicsWorld dispatcher pairCache constraintSolver collisionConfiguration =
     \<lparr> m_dispatcher1 = dispatcher,
       m_broadphasePairCache = pairCache,
       m_constraintSolver = constraintSolver,
       m_collisionConfiguration = collisionConfiguration,
       gravity = (0, 0, 0),
       m_enableSPU = False,
       m_collisionObjects = [],
       calls = [] \<rparr>"

text \<open>Modelled from the spec: setting the gravity of the simulation context.\<close>

definition setGravity :: "btVector3 \<Rightarrow> btDiscreteDynamicsWorld \<Rightarrow> btDiscreteDynamicsWorld" where
  "setGravity g bw = bw\<lparr>gravity := g\<rparr>"

text \<open>
  Modelled from the spec: the array of live objects of the simulation context (section
  6: ``query live object count and enumerate live objects'').
\<close>

definition getCollisionObjectArray :: "btDiscreteDynamicsWorld \<Rightarrow> btCollisionObject list" where
  "getCollisionObjectArray bw = m_collisionObjects bw"

text \<open>
  Modelled from the spec: taking a body out of the live objects. The first live object
  that has the address given is removed; the array is left alone when there is none.
\<close>

fun remove_body :: "nat \<Rightarrow> btCollisionObject list \<Rightarrow> btCollisionObject list" where
  "remove_body a [] = []"
| "remove_body a (b # bs) = (if body_id b = a then bs else b # remove_body a bs)"

text \<open>
  Modelled from the spec: registering a rigid body (section 6). The body is appended to
  the live objects and the request is recorded.
\<close>

definition addRigidBody :: "btCollisionObject \<Rightarrow> btDiscreteDynamicsWorld \<Rightarrow> btDiscreteDynamicsWorld" where
  "addRigidBody body bw =
     bw\<lparr> m_collisionObjects := m_collisionObjects bw @ [body],
         calls := calls bw @ [Call_addRigidBody (body_id body)] \<rparr>"

text \<open>
  Modelled from the spec: unregistering a rigid body (section 6). One live object with
  the address of the body leaves the array and the request is recorded.
\<close>

definition removeRigidBody :: "btCollisionObject \<Rightarrow> btDiscreteDynamicsWorld \<Rightarrow> btDiscreteDynamicsWorld" where
  "removeRigidBody body bw =
     bw\<lparr> m_collisionObjects := remove_body (body_id body) (m_collisionObjects bw),
         calls := calls bw @ [Call_removeRigidBody (body_id body)] \<rparr>"

text \<open>
  Modelled from the spec: the engine's test for a rigid body (\<open>btRigidBody::upcast\<close>):
  the body when it is a rigid body, the null pointer otherwise.
\<close>

definition btRigidBody_upcast :: "btCollisionObject \<Rightarrow> btCollisionObject option" where
  "btRigidBody_upcast colObj = (if internalType colObj = RIGID_BODY then Some colObj else None)"

text \<open>
  Modelled from the spec: the engine's test for a soft body (\<open>btSoftBody::upcast\<close>):
  the body when it is a soft body, the null pointer otherwise.
\<close>

definition btSoftBody_upcast :: "btCollisionObject \<Rightarrow> btCollisionObject option" where
  "btSoftBody_upcast colObj = (if internalType colObj = SOFT_BODY then Some colObj else None)"

text \<open>
  Modelled from the spec: activation of a body (section 6: ``per-object
  force-activate''). After a forced activation the ``is active'' query answers yes; what
  an activation that is not forced does is outside the model, and the World never asks
  for one.
\<close>

definition activate :: "bool \<Rightarrow> btCollisionObject \<Rightarrow> btCollisionObject" where
  "activate forceActivation body = (if forceActivation then body\<lparr>isActive := True\<rparr> else body)"

text \<open>
  Modelled from the spec: advancing the context (section 6: ``advance the context by
  (horizon, max sub-steps, sub-step duration)''). What the solver computes in a step is
  outside the model; the context records the request. A step neither registers nor
  unregisters an object.
\<close>

definition stepSimulation ::
  "real \<Rightarrow> int \<Rightarrow> real \<Rightarrow> btDiscreteDynamicsWorld \<Rightarrow> btDiscreteDynamicsWorld" where
  "stepSimulation timeStep maxSubSteps fixedTimeStep bw =
     bw\<lparr>calls := calls bw @ [Call_stepSimulation timeStep maxSubSteps fixedTimeStep]\<rparr>"

subsection \<open>Collision objects and world info\<close>

text \<open>
  Modelled from the spec: \<open>CollisionObject\<close> (section 3: ``a discriminant (rigid |
  soft), an opaque handle to its native solver representation''). The class is declared
  outside \<open>DynamicsWorld.cpp\<close>, which reads it through \<open>isRigidBody()\<close>,
  \<open>isSoftBody()\<close> and \<open>getBulletBody()\<close> only; the two tests are independent
  answers here, as two member functions are.
\<close>

record CollisionObject =
  isRigidBody :: bool
  isSoftBody :: bool
  getBulletBody :: btCollisionObject

text \<open>
  Modelled from the spec: world-info (section 3: ``gravity, fluid/air density
  parameters''), with the fields that the constructor of the World assigns.
\<close>

record btSoftBodyWorldInfo =
  air_density :: real
  water_density :: real
  water_offset :: real
  water_normal :: btVector3
  m_broadphase :: "btBroadphaseInterface option"
  m_dispatcher :: "btCollisionDispatcher option"
  m_gravity :: btVector3
  m_sparsesdf_initialized :: bool

section \<open>The World\<close>

text \<open>
  Modelled from the spec: the class \<open>DynamicsWorld\<close>, which is declared outside
  \<open>DynamicsWorld.cpp\<close> (section 3 lists what a World owns). The members are those
  that \<open>DynamicsWorld.cpp\<close> uses, under its names. \<open>mObjects\<close> is the Object
  Registry (section 2: ``an ordered, insertion-order-preserving sequence \<dots> supports
  append, iteration, and positional removal''); a position (\<open>Iter\<close>) is an index
  into it, and the index \<open>length\<close> is end-of-sequence. \<open>mNumObjects\<close> is the
  last-observed object count, a \<open>uint32_t\<close>.
\<close>

record DynamicsWorld =
  mBroadphase :: "btBroadphaseInterface option"
  mCollisionConfiguration :: "btDefaultCollisionConfiguration option"
  mDispatcher :: "btCollisionDispatcher option"
  mSolver :: "btConstraintSolver option"
  mSoftBodyWorldInfo :: btSoftBodyWorldInfo
  mWorld :: "btDiscreteDynamicsWorld option"
  mElapsedSeconds :: real
  mNumObjects :: "32 word"
  mObjects :: "CollisionObject list"

text \<open>
  What C++ leaves undefined is a value of the model: dereferencing a null pointer,
  dereferencing a position that is not in the registry, reading an array out of range,
  and calling a member function of a derived class through a pointer that was cast
  down to it while the object it points to is not of that class.
\<close>

datatype error =
    NullPointerDereference
  | InvalidIterator
  | IndexOutOfRange
  | InvalidDowncast

subsection \<open>Construction and destruction\<close>

text \<open>
  The constructor (lines 22 to 50). Its argument is what the host's
  \<open>getElapsedSeconds()\<close> returns. Every \<open>new\<close> yields a pointer that is not
  null.
\<close>

definition DynamicsWorld_new :: "real \<Rightarrow> DynamicsWorld" where
  "DynamicsWorld_new elapsedSeconds =
     (let collisionConfiguration = Some New_btDefaultCollisionConfiguration;
          dispatcher = Some (New_btCollisionDispatcher collisionConfiguration);
          broadphase = Some New_btDbvtBroadphase;
          solver = Some New_btSequentialImpulseConstraintSolver;
          info = \<lparr> air_density = 12 / 10,
                   water_density = 0,
                   water_offset = 0,
                   water_normal = (0, 0, 0),
                   m_broadphase = broadphase,
                   m_dispatcher = dispatcher,
                   m_gravity = (0, - 10, 0),
                   m_sparsesdf_initialized = True \<rparr>;
          world = new_btDiscreteDynamicsWorld dispatcher broadphase solver collisionConfiguration;
          world = setGravity (0, - 10, 0) world;
          world = world\<lparr>m_enableSPU := True\<rparr>
      in \<lparr> mBroadphase = broadphase,
           mCollisionConfiguration = collisionConfiguration,
           mDispatcher = dispatcher,
           mSolver = solver,
           mSoftBodyWorldInfo = info,
           mWorld = Some world,
           mElapsedSeconds = elapsedSeconds,
           mNumObjects = 0,
           mObjects = [] \<rparr>)"

text \<open>The factories \<open>DynamicsWorld::create\<close> (lines 16 to 19) and \<open>createWorld\<close>.\<close>

definition create :: "real \<Rightarrow> DynamicsWorld" where
  "create elapsedSeconds = DynamicsWorld_new elapsedSeconds"

definition createWorld :: "real \<Rightarrow> DynamicsWorld" where
  "createWorld elapsedSeconds = create elapsedSeconds"

text \<open>
  The destructor (lines 53 to 70). Its result is the sequence of \<open>delete\<close>s that
  its body performs, first to last.
\<close>

datatype deleted =
    Delete_mBroadphase
  | Delete_mCollisionConfiguration
  | Delete_mDispatcher
  | Delete_mWorld
  | Delete_mSolver

definition DynamicsWorld_delete :: "DynamicsWorld \<Rightarrow> deleted list" where
  "DynamicsWorld_delete w =
     (if mBroadphase w \<noteq> None then [Delete_mBroadphase] else []) @
     (if mCollisionConfiguration w \<noteq> None then [Delete_mCollisionConfiguration] else []) @
     (if mDispatcher w \<noteq> None then [Delete_mDispatcher] else []) @
     (if mWorld w \<noteq> None then [Delete_mWorld] else []) @
     (if mSolver w \<noteq> None then [Delete_mSolver] else [])"

subsection \<open>The registry: iteration, erase, pushBack\<close>

text \<open>\<open>begin\<close> and \<open>end\<close> (lines 74 to 82).\<close>

definition begin_iter :: "DynamicsWorld \<Rightarrow> nat" where
  "begin_iter w = 0"

definition end_iter :: "DynamicsWorld \<Rightarrow> nat" where
  "end_iter w = length (mObjects w)"

text \<open>
  \<open>toBulletRigidBody\<close> and \<open>toBulletSoftBody\<close> (lines 185 to 200) reinterpret the
  handle of the object and check nothing; the source has each for a pointer to an
  object and for a position, which dereferences to the object.
\<close>

definition toBulletRigidBody :: "CollisionObject \<Rightarrow> btCollisionObject" where
  "toBulletRigidBody object = getBulletBody object"

definition toBulletSoftBody :: "CollisionObject \<Rightarrow> btCollisionObject" where
  "toBulletSoftBody object = getBulletBody object"

text \<open>
  The simulation context of a World is the object that the constructor builds at line
  42, a \<open>btDiscreteDynamicsWorld\<close>; no other statement assigns \<open>mWorld\<close>. Lines 89
  and 100 cast the pointer to it down to \<open>btSoftRigidDynamicsWorld*\<close> and call
  \<open>removeSoftBody\<close> and \<open>addSoftBody\<close> through the result. The object is not a
  \<open>btSoftRigidDynamicsWorld\<close>, so both calls are undefined: that is the value
  \<open>InvalidDowncast\<close> of the soft branch of \<open>erase\<close> and of \<open>pushBack\<close>.
\<close>

text \<open>
  The first statement of \<open>erase\<close>, the \<open>if\<close> \<dots> \<open>else if\<close> of lines 86 to 90,
  which talks to the simulation context.
\<close>

definition erase_unregister :: "nat \<Rightarrow> DynamicsWorld \<Rightarrow> error + DynamicsWorld" where
  "erase_unregister pos w =
     (if pos < length (mObjects w) then
        (if isRigidBody (mObjects w ! pos) then
           (case mWorld w of
              None \<Rightarrow> Inl NullPointerDereference
            | Some bw \<Rightarrow> Inr (w\<lparr>mWorld := Some (removeRigidBody (toBulletRigidBody (mObjects w ! pos)) bw)\<rparr>))
         else if isSoftBody (mObjects w ! pos) then
           (case mWorld w of
              None \<Rightarrow> Inl NullPointerDereference
            | Some bw \<Rightarrow> Inl InvalidDowncast)
         else Inr w)
      else Inl InvalidIterator)"

text \<open>
  The second statement of \<open>erase\<close>, line 91: the removal from the registry, with the
  position it returns. Removing position \<open>pos\<close> from a sequence leaves the elements
  before it where they are and moves the following ones down by one, so the position
  after the removed element is \<open>pos\<close> again.
\<close>

definition erase_registry :: "nat \<Rightarrow> DynamicsWorld \<Rightarrow> error + nat \<times> DynamicsWorld" where
  "erase_registry pos w =
     (if pos < length (mObjects w) then
        Inr (pos, w\<lparr>mObjects := take pos (mObjects w) @ drop (Suc pos) (mObjects w)\<rparr>)
      else Inl InvalidIterator)"

text \<open>
  \<open>erase\<close> (lines 84 to 92), statement by statement: the World between the two
  statements, the position returned, and the World at the return.
\<close>

definition erase_steps :: "nat \<Rightarrow> DynamicsWorld \<Rightarrow> error + DynamicsWorld \<times> nat \<times> DynamicsWorld" where
  "erase_steps pos w =
     (case erase_unregister pos w of
        Inl e \<Rightarrow> Inl e
      | Inr w1 \<Rightarrow>
          (case erase_registry pos w1 of
             Inl e \<Rightarrow> Inl e
           | Inr (next_pos, w2) \<Rightarrow> Inr (w1, next_pos, w2)))"

text \<open>\<open>erase\<close> as its caller sees it: the position returned and the World at the return.\<close>

definition erase :: "nat \<Rightarrow> DynamicsWorld \<Rightarrow> error + nat \<times> DynamicsWorld" where
  "erase pos w =
     (case erase_steps pos w of
        Inl e \<Rightarrow> Inl e
      | Inr (w1, next_pos, w2) \<Rightarrow> Inr (next_pos, w2))"

text \<open>\<open>pushBack\<close> (lines 94 to 102).\<close>

definition pushBack :: "CollisionObject \<Rightarrow> DynamicsWorld \<Rightarrow> error + DynamicsWorld" where
  "pushBack object w =
     (let w1 = w\<lparr>mObjects := mObjects w @ [object]\<rparr> in
      if isRigidBody object then
        (case mWorld w1 of
           None \<Rightarrow> Inl NullPointerDereference
         | Some bw \<Rightarrow> Inr (w1\<lparr>mWorld := Some (addRigidBody (toBulletRigidBody object) bw)\<rparr>))
      else if isSoftBody object then
        (case mWorld w1 of
           None \<Rightarrow> Inl NullPointerDereference
         | Some bw \<Rightarrow> Inl InvalidDowncast)
      else Inr w1)"

subsection \<open>Accessors\<close>

text \<open>The accessors and \<open>setInfo\<close> (lines 106 to 142).\<close>

definition getBroadphase :: "DynamicsWorld \<Rightarrow> btBroadphaseInterface option" where
  "getBroadphase w = mBroadphase w"

definition getCollisionConfiguration :: "DynamicsWorld \<Rightarrow> btDefaultCollisionConfiguration option" where
  "getCollisionConfiguration w = mCollisionConfiguration w"

definition getDispatcher :: "DynamicsWorld \<Rightarrow> btCollisionDispatcher option" where
  "getDispatcher w = mDispatcher w"

definition getInfo :: "DynamicsWorld \<Rightarrow> btSoftBodyWorldInfo" where
  "getInfo w = mSoftBodyWorldInfo w"

definition getNumObjects :: "DynamicsWorld \<Rightarrow> 32 word" where
  "getNumObjects w = mNumObjects w"

definition getObjects :: "DynamicsWorld \<Rightarrow> CollisionObject list" where
  "getObjects w = mObjects w"

definition getSolver :: "DynamicsWorld \<Rightarrow> btConstraintSolver option" where
  "getSolver w = mSolver w"

definition getWorld :: "DynamicsWorld \<Rightarrow> btDiscreteDynamicsWorld option" where
  "getWorld w = mWorld w"

definition setInfo :: "btSoftBodyWorldInfo \<Rightarrow> DynamicsWorld \<Rightarrow> DynamicsWorld" where
  "setInfo info w = w\<lparr>mSoftBodyWorldInfo := info\<rparr>"

subsection \<open>update\<close>

text \<open>
  The body of the activation loop (lines 161 to 170) at index \<open>i\<close>: the object is read from the
  array of the simulation context; a rigid body is activated as a rigid body, any other
  object that is a soft body as a soft body, and an object of neither kind is left
  alone.
\<close>

definition activate_body_at :: "32 word \<Rightarrow> btDiscreteDynamicsWorld \<Rightarrow> error + btDiscreteDynamicsWorld" where
  "activate_body_at i bw =
     (if unat i < length (getCollisionObjectArray bw) then
        (let collisionObject = getCollisionObjectArray bw ! unat i in
         case btRigidBody_upcast collisionObject of
           Some rigidBody \<Rightarrow>
             Inr (bw\<lparr> m_collisionObjects := (m_collisionObjects bw)[unat i := activate True rigidBody],
                      calls := calls bw @ [Call_activateRigid (body_id rigidBody) True] \<rparr>)
         | None \<Rightarrow>
             (case btSoftBody_upcast collisionObject of
                Some softBody \<Rightarrow>
                  Inr (bw\<lparr> m_collisionObjects := (m_collisionObjects bw)[unat i := activate True softBody],
                           calls := calls bw @ [Call_activateSoft (body_id softBody) True] \<rparr>)
              | None \<Rightarrow> Inr bw))
      else Inl IndexOutOfRange)"

text \<open>
  The loop \<open>for ( uint32_t i = 0; i < numObjects; i++ )\<close> (line 160), from a given
  \<open>i\<close> on.
\<close>

function activate_all_bodies ::
  "32 word \<Rightarrow> 32 word \<Rightarrow> btDiscreteDynamicsWorld \<Rightarrow> error + btDiscreteDynamicsWorld" where
  "activate_all_bodies i numObjects bw =
     (if i < numObjects then
        (case activate_body_at i bw of
           Inl e \<Rightarrow> Inl e
         | Inr bw1 \<Rightarrow> activate_all_bodies (i + 1) numObjects bw1)
      else Inr bw)"
  by pat_completeness auto
termination
proof (relation "measure (\<lambda>(i, numObjects, bw). unat numObjects - unat i)")
  show "wf (measure (\<lambda>(i :: 32 word, numObjects :: 32 word, bw :: btDiscreteDynamicsWorld).
              unat numObjects - unat i))"
    by simp
next
  fix i numObjects :: "32 word" and bw x2 :: btDiscreteDynamicsWorld
  assume less: "i < numObjects"
  then have below: "unat i < unat numObjects"
    by (simp add: word_less_nat_alt)
  moreover have "unat numObjects < 2 ^ 32"
    using unsigned_less [of numObjects] by simp
  ultimately have "unat i + 1 < 2 ^ 32"
    by simp
  then have "unat (i + 1) = Suc (unat i)"
    by (simp add: unat_word_ariths)
  with below show "((i + 1, numObjects, x2), i, numObjects, bw)
      \<in> measure (\<lambda>(i, numObjects, bw). unat numObjects - unat i)"
    by simp
qed

declare activate_all_bodies.simps [simp del]

text \<open>
  The last two statements of \<open>update\<close> (lines 176 and 179): the assignment to
  \<open>mNumObjects\<close> and the call of \<open>stepSimulation\<close>. \<open>frameRate\<close> is what the host's \<open>getFrameRate()\<close>
  returns; \<open>math<float>::max\<close> is the larger of its two arguments.
\<close>

definition update_count_and_step :: "real \<Rightarrow> 32 word \<Rightarrow> DynamicsWorld \<Rightarrow> error + DynamicsWorld" where
  "update_count_and_step frameRate numObjects w =
     (case mWorld w of
        None \<Rightarrow> Inl NullPointerDereference
      | Some bw \<Rightarrow>
          Inr (w\<lparr> mNumObjects := numObjects,
                  mWorld := Some (stepSimulation 1 10 (1 / max 1 frameRate) bw) \<rparr>))"

text \<open>
  \<open>update\<close> (lines 147 to 181). The size of the array is converted to
  \<open>uint32_t\<close>; on an unsigned number \<open>numObjects <= 0\<close> holds for zero only.
\<close>

definition update :: "real \<Rightarrow> DynamicsWorld \<Rightarrow> error + DynamicsWorld" where
  "update frameRate w =
     (case mWorld w of
        None \<Rightarrow> Inl NullPointerDereference
      | Some bw \<Rightarrow>
          (let numObjects = (of_nat (length (getCollisionObjectArray bw)) :: 32 word) in
           if mNumObjects w \<noteq> numObjects then
             (if numObjects \<le> 0 then Inr w
              else
                (case activate_all_bodies 0 numObjects bw of
                   Inl e \<Rightarrow> Inl e
                 | Inr bw1 \<Rightarrow> update_count_and_step frameRate numObjects (w\<lparr>mWorld := Some bw1\<rparr>)))
           else update_count_and_step frameRate numObjects w))"

section \<open>Sequences of calls\<close>

text \<open>
  A caller of the World: a sequence of calls of \<open>pushBack\<close>, \<open>erase\<close> and
  \<open>update\<close>, run from left to right and stopped by the first call that has no
  defined result.
\<close>

datatype operation = PushBack CollisionObject | Erase nat | Update real

fun apply_operation :: "operation \<Rightarrow> DynamicsWorld \<Rightarrow> error + DynamicsWorld" where
  "apply_operation (PushBack object) w = pushBack object w"
| "apply_operation (Erase pos) w = (case erase pos w of Inl e \<Rightarrow> Inl e | Inr (next_pos, w1) \<Rightarrow> Inr w1)"
| "apply_operation (Update frameRate) w = update frameRate w"

fun run :: "operation list \<Rightarrow> DynamicsWorld \<Rightarrow> error + DynamicsWorld" where
  "run [] w = Inr w"
| "run (operation # operations) w =
     (case apply_operation operation w of
        Inl e \<Rightarrow> Inl e
      | Inr w1 \<Rightarrow> run operations w1)"

section \<open>Notions of the specification\<close>

text \<open>
  Force-activation of every live object, in the words of the specification: a rigid
  body is woken as a rigid body, a soft body as a soft body; \<open>woken\<close> is the object
  afterwards, \<open>wake_calls\<close> the request it receives, \<open>wake_all\<close> the simulation
  context after the first \<open>n\<close> live objects were woken in the order of the array.
\<close>

definition woken :: "btCollisionObject \<Rightarrow> btCollisionObject" where
  "woken b =
     (if internalType b = RIGID_BODY \<or> internalType b = SOFT_BODY then b\<lparr>isActive := True\<rparr> else b)"

definition wake_calls :: "btCollisionObject \<Rightarrow> engine_call list" where
  "wake_calls b =
     (if internalType b = RIGID_BODY then [Call_activateRigid (body_id b) True]
      else if internalType b = SOFT_BODY then [Call_activateSoft (body_id b) True]
      else [])"

definition wake_all :: "32 word \<Rightarrow> btDiscreteDynamicsWorld \<Rightarrow> btDiscreteDynamicsWorld" where
  "wake_all n bw =
     bw\<lparr> m_collisionObjects :=
            map woken (take (unat n) (m_collisionObjects bw)) @ drop (unat n) (m_collisionObjects bw),
         calls := calls bw @ concat (map wake_calls (take (unat n) (m_collisionObjects bw))) \<rparr>"

fun is_activation :: "engine_call \<Rightarrow> bool" where
  "is_activation (Call_activateRigid a force) = True"
| "is_activation (Call_activateSoft a force) = True"
| "is_activation c = False"

fun is_step :: "engine_call \<Rightarrow> bool" where
  "is_step (Call_stepSimulation timeStep maxSubSteps fixedTimeStep) = True"
| "is_step c = False"

text \<open>
  The condition under which \<open>update\<close> enters its activation loop, and the condition
  under which it reaches the assignment to \<open>mNumObjects\<close>.
\<close>

definition activation_pass_due :: "DynamicsWorld \<Rightarrow> bool" where
  "activation_pass_due w =
     (case mWorld w of
        None \<Rightarrow> False
      | Some bw \<Rightarrow>
          mNumObjects w \<noteq> of_nat (length (getCollisionObjectArray bw)) \<and>
          (of_nat (length (getCollisionObjectArray bw)) :: 32 word) \<noteq> 0)"

definition reaches_count_update :: "DynamicsWorld \<Rightarrow> bool" where
  "reaches_count_update w =
     (case mWorld w of
        None \<Rightarrow> False
      | Some bw \<Rightarrow>
          mNumObjects w = of_nat (length (getCollisionObjectArray bw)) \<or>
          (of_nat (length (getCollisionObjectArray bw)) :: 32 word) \<noteq> 0)"

definition live_count :: "DynamicsWorld \<Rightarrow> 32 word" where
  "live_count w =
     (case mWorld w of
        None \<Rightarrow> 0
      | Some bw \<Rightarrow> of_nat (length (getCollisionObjectArray bw)))"

text \<open>
  The count that the most recent call of \<open>update\<close> which reached the assignment has
  recorded along a sequence of calls run from \<open>w\<close>, and \<open>c\<close> when there was no
  such call.
\<close>

fun recorded_count :: "operation list \<Rightarrow> DynamicsWorld \<Rightarrow> 32 word \<Rightarrow> 32 word" where
  "recorded_count [] w c = c"
| "recorded_count (operation # operations) w c =
     (case apply_operation operation w of
        Inl e \<Rightarrow> c
      | Inr w1 \<Rightarrow>
          recorded_count operations w1
            (case operation of
               Update frameRate \<Rightarrow> if reaches_count_update w then live_count w else c
             | PushBack object \<Rightarrow> c
             | Erase pos \<Rightarrow> c))"

text \<open>
  A sequence of calls in which every \<open>pushBack\<close> is given an object that reports
  rigid and every \<open>erase\<close> a position of the registry, which has \<open>n\<close> entries at
  the start.
\<close>

fun rigid_calls :: "operation list \<Rightarrow> nat \<Rightarrow> bool" where
  "rigid_calls [] n = True"
| "rigid_calls (PushBack object # operations) n =
     (isRigidBody object \<and> rigid_calls operations (Suc n))"
| "rigid_calls (Erase pos # operations) n = (pos < n \<and> rigid_calls operations (n - 1))"
| "rigid_calls (Update frameRate # operations) n = rigid_calls operations n"

text \<open>
  Every entry of the registry reports rigid, and the registry and the simulation
  context hold the same native bodies, each as often in the one as in the other.
\<close>

definition registry_reconciled :: "DynamicsWorld \<Rightarrow> bool" where
  "registry_reconciled w =
     (case mWorld w of
        None \<Rightarrow> False
      | Some bw \<Rightarrow>
          list_all isRigidBody (mObjects w) \<and>
          mset (map (\<lambda>object. body_id (getBulletBody object)) (mObjects w)) =
          mset (map body_id (getCollisionObjectArray bw)))"

section \<open>Example worlds\<close>

definition example_box :: CollisionObject where
  "example_box =
     \<lparr> isRigidBody = True, isSoftBody = False,
       getBulletBody = \<lparr> body_id = 1, internalType = RIGID_BODY, isActive = False \<rparr> \<rparr>"

definition example_cloth :: CollisionObject where
  "example_cloth =
     \<lparr> isRigidBody = False, isSoftBody = True,
       getBulletBody = \<lparr> body_id = 2, internalType = SOFT_BODY, isActive = False \<rparr> \<rparr>"

definition example_marker :: CollisionObject where
  "example_marker =
     \<lparr> isRigidBody = False, isSoftBody = False,
       getBulletBody = \<lparr> body_id = 3, internalType = OTHER_OBJECT, isActive = False \<rparr> \<rparr>"

text \<open>
  The context and the World after a box was appended to a new World, an \<open>update\<close>
  ran at 60 frames per second and the box was erased again.
\<close>

definition emptied_context :: btDiscreteDynamicsWorld where
  "emptied_context =
     \<lparr> m_dispatcher1 = Some (New_btCollisionDispatcher (Some New_btDefaultCollisionConfiguration)),
       m_broadphasePairCache = Some New_btDbvtBroadphase,
       m_constraintSolver = Some New_btSequentialImpulseConstraintSolver,
       m_collisionConfiguration = Some New_btDefaultCollisionConfiguration,
       gravity = (0, - 10, 0),
       m_enableSPU = True,
       m_collisionObjects = [],
       calls = [Call_addRigidBody 1, Call_activateRigid 1 True,
                Call_stepSimulation 1 10 (1 / 60), Call_removeRigidBody 1] \<rparr>"

definition emptied_world :: DynamicsWorld where
  "emptied_world = (create 0)\<lparr> mWorld := Some emptied_context, mNumObjects := 1 \<rparr>"

text \<open>
  A World whose registry holds a box and a cloth and whose context holds the bodies of
  both, before the first \<open>update\<close>.
\<close>

definition populated_context :: btDiscreteDynamicsWorld where
  "populated_context =
     \<lparr> m_dispatcher1 = Some (New_btCollisionDispatcher (Some New_btDefaultCollisionConfiguration)),
       m_broadphasePairCache = Some New_btDbvtBroadphase,
       m_constraintSolver = Some New_btSequentialImpulseConstraintSolver,
       m_collisionConfiguration = Some New_btDefaultCollisionConfiguration,
       gravity = (0, - 10, 0),
       m_enableSPU = True,
       m_collisionObjects = [getBulletBody example_box, getBulletBody example_cloth],
       calls = [Call_addRigidBody 1] \<rparr>"

definition populated_world :: DynamicsWorld where
  "populated_world =
     (create 0)\<lparr> mWorld := Some populated_context, mObjects := [example_box, example_cloth] \<rparr>"

text \<open>A new World to which an object of neither kind was appended.\<close>

definition marker_world :: DynamicsWorld where
  "marker_world = (create 0)\<lparr> mObjects := [example_marker] \<rparr>"

text \<open>
  A World whose context holds one live object that is neither a rigid nor a soft body,
  before the first \<open>update\<close>. \<open>getWorld\<close> hands the context to the caller, and the
  engine keeps objects of other kinds in the same array.
\<close>

definition stray_context :: btDiscreteDynamicsWorld where
  "stray_context =
     \<lparr> m_dispatcher1 = Some (New_btCollisionDispatcher (Some New_btDefaultCollisionConfiguration)),
       m_broadphasePairCache = Some New_btDbvtBroadphase,
       m_constraintSolver = Some New_btSequentialImpulseConstraintSolver,
       m_collisionConfiguration = Some New_btDefaultCollisionConfiguration,
       gravity = (0, - 10, 0),
       m_enableSPU = True,
       m_collisionObjects = [\<lparr> body_id = 3, internalType = OTHER_OBJECT, isActive = False \<rparr>],
       calls = [] \<rparr>"

definition stray_world :: DynamicsWorld where
  "stray_world = (create 0)\<lparr> mWorld := Some stray_context \<rparr>"

section \<open>Properties\<close>

subsection \<open>The activation loop\<close>

lemma unat_succ_below:
  fixes i n :: "32 word"
  assumes "i < n"
  shows "unat (i + 1) = Suc (unat i)"
proof -
  have "unat i < unat n"
    using assms by (simp add: word_less_nat_alt)
  moreover have "unat n < 2 ^ 32"
    using unsigned_less [of n] by simp
  ultimately have "unat i + 1 < 2 ^ 32"
    by simp
  then show ?thesis
    by (simp add: unat_word_ariths)
qed

lemma unat_count_le: "unat (of_nat k :: 32 word) \<le> k"
  by (simp add: unat_of_nat)

lemma unat_count_eq: "k < 2 ^ 32 \<Longrightarrow> unat (of_nat k :: 32 word) = k"
  by (simp add: unat_of_nat)

lemma count_nonzero: "0 < k \<Longrightarrow> k < 2 ^ 32 \<Longrightarrow> (of_nat k :: 32 word) \<noteq> 0"
  using unat_count_eq [of k] by auto

lemma activate_body_at_eq:
  assumes "unat i < length (m_collisionObjects bw)"
  shows "activate_body_at i bw =
    Inr (bw\<lparr> m_collisionObjects := (m_collisionObjects bw)[unat i := woken (m_collisionObjects bw ! unat i)],
             calls := calls bw @ wake_calls (m_collisionObjects bw ! unat i) \<rparr>)"
  using assms
  by (simp add: activate_body_at_def getCollisionObjectArray_def btRigidBody_upcast_def
      btSoftBody_upcast_def activate_def woken_def wake_calls_def Let_def)

lemma activate_all_bodies_eq:
  "unat n \<le> length (m_collisionObjects bw) \<Longrightarrow> i \<le> n \<Longrightarrow>
   activate_all_bodies i n bw =
     Inr (bw\<lparr> m_collisionObjects :=
                 take (unat i) (m_collisionObjects bw) @
                 map woken (drop (unat i) (take (unat n) (m_collisionObjects bw))) @
                 drop (unat n) (m_collisionObjects bw),
              calls := calls bw @
                 concat (map wake_calls (drop (unat i) (take (unat n) (m_collisionObjects bw)))) \<rparr>)"
proof (induction i n bw rule: activate_all_bodies.induct)
  case (1 i n bw)
  let ?xs = "m_collisionObjects bw"
  show ?case
  proof (cases "i < n")
    case False
    with "1.prems" have "i = n" by simp
    then show ?thesis
      by (subst activate_all_bodies.simps) simp
  next
    case True
    then have k: "unat i < unat n"
      by (simp add: word_less_nat_alt)
    with "1.prems" have inrange: "unat i < length ?xs"
      by simp
    let ?bw1 = "bw\<lparr> m_collisionObjects := ?xs[unat i := woken (?xs ! unat i)],
                     calls := calls bw @ wake_calls (?xs ! unat i) \<rparr>"
    have step: "activate_body_at i bw = Inr ?bw1"
      using inrange by (rule activate_body_at_eq)
    have suc: "unat (i + 1) = Suc (unat i)"
      using True by (rule unat_succ_below)
    have le: "i + 1 \<le> n"
      using k suc by (simp add: word_le_nat_alt)
    have len: "unat n \<le> length (m_collisionObjects ?bw1)"
      using "1.prems" by simp
    have IH: "activate_all_bodies (i + 1) n ?bw1 =
      Inr (?bw1\<lparr> m_collisionObjects :=
                 take (unat (i + 1)) (m_collisionObjects ?bw1) @
                 map woken (drop (unat (i + 1)) (take (unat n) (m_collisionObjects ?bw1))) @
                 drop (unat n) (m_collisionObjects ?bw1),
              calls := calls ?bw1 @
                 concat (map wake_calls (drop (unat (i + 1)) (take (unat n) (m_collisionObjects ?bw1)))) \<rparr>)"
      using "1.IH" [OF True step len le] .
    have split: "drop (unat i) (take (unat n) ?xs) = ?xs ! unat i # drop (Suc (unat i)) (take (unat n) ?xs)"
      using k inrange by (simp add: Cons_nth_drop_Suc [symmetric])
    have a: "take (Suc (unat i)) (?xs[unat i := woken (?xs ! unat i)]) = take (unat i) ?xs @ [woken (?xs ! unat i)]"
      using inrange by (simp add: take_Suc_conv_app_nth)
    have b: "drop (Suc (unat i)) (take (unat n) (?xs[unat i := woken (?xs ! unat i)])) = drop (Suc (unat i)) (take (unat n) ?xs)"
      by (simp add: take_update_swap drop_take)
    have c: "drop (unat n) (?xs[unat i := woken (?xs ! unat i)]) = drop (unat n) ?xs"
      using k by simp
    have "activate_all_bodies i n bw = activate_all_bodies (i + 1) n ?bw1"
      by (subst activate_all_bodies.simps) (simp add: True step)
    also note IH
    finally show ?thesis
      by (simp add: suc split a b c)
  qed
qed

lemma activate_all_bodies_from_0:
  assumes "unat n \<le> length (m_collisionObjects bw)"
  shows "activate_all_bodies 0 n bw = Inr (wake_all n bw)"
  using activate_all_bodies_eq [OF assms, of 0] by (simp add: wake_all_def)

subsection \<open>update, in one equation\<close>

lemma update_eq:
  assumes "mWorld w = Some bw"
  shows "update frameRate w =
    (if mNumObjects w \<noteq> of_nat (length (m_collisionObjects bw)) \<and>
        (of_nat (length (m_collisionObjects bw)) :: 32 word) = 0 then Inr w
     else Inr (w\<lparr> mNumObjects := of_nat (length (m_collisionObjects bw)),
                   mWorld := Some (stepSimulation 1 10 (1 / max 1 frameRate)
                     (if mNumObjects w \<noteq> of_nat (length (m_collisionObjects bw))
                      then wake_all (of_nat (length (m_collisionObjects bw))) bw else bw)) \<rparr>))"
proof -
  have "activate_all_bodies 0 (of_nat (length (m_collisionObjects bw))) bw =
      Inr (wake_all (of_nat (length (m_collisionObjects bw))) bw)"
    by (rule activate_all_bodies_from_0) (rule unat_count_le)
  then show ?thesis
    using assms
    by (simp add: update_def getCollisionObjectArray_def update_count_and_step_def Let_def)
qed

lemma wake_all_objects [simp]:
  "m_collisionObjects (wake_all n bw) =
     map woken (take (unat n) (m_collisionObjects bw)) @ drop (unat n) (m_collisionObjects bw)"
  by (simp add: wake_all_def)

lemma wake_all_calls [simp]:
  "calls (wake_all n bw) = calls bw @ concat (map wake_calls (take (unat n) (m_collisionObjects bw)))"
  by (simp add: wake_all_def)

lemma stepSimulation_objects [simp]:
  "m_collisionObjects (stepSimulation t m f bw) = m_collisionObjects bw"
  by (simp add: stepSimulation_def)

lemma stepSimulation_calls [simp]:
  "calls (stepSimulation t m f bw) = calls bw @ [Call_stepSimulation t m f]"
  by (simp add: stepSimulation_def)

lemma wake_calls_no_step [simp]: "filter is_step (concat (map wake_calls bs)) = []"
  by (induction bs) (simp_all add: wake_calls_def)

lemma wake_calls_activation [simp]:
  "filter is_activation (concat (map wake_calls bs)) = concat (map wake_calls bs)"
  by (induction bs) (simp_all add: wake_calls_def)

lemma body_id_woken [simp]: "body_id (woken b) = body_id b"
  by (simp add: woken_def)

lemma length_wake_all [simp]:
  "length (map woken (take k bs) @ drop k bs) = length bs"
  by simp

lemma body_ids_wake_all [simp]:
  "map body_id (map woken (take k bs) @ drop k bs) = map body_id bs"
proof -
  have "map body_id (take k bs) @ map body_id (drop k bs) = map body_id bs"
    by (metis map_append append_take_drop_id)
  then show ?thesis
    by (simp add: comp_def)
qed

subsection \<open>The example worlds\<close>

lemma emptied_world_fields:
  "mWorld emptied_world = Some emptied_context"
  "mNumObjects emptied_world = 1"
  "mObjects emptied_world = []"
  "m_collisionObjects emptied_context = []"
  by (simp_all add: emptied_world_def emptied_context_def create_def DynamicsWorld_new_def Let_def)

lemma populated_world_fields:
  "mWorld populated_world = Some populated_context"
  "mNumObjects populated_world = 0"
  "mObjects populated_world = [example_box, example_cloth]"
  "m_collisionObjects populated_context = [getBulletBody example_box, getBulletBody example_cloth]"
  "calls populated_context = [Call_addRigidBody 1]"
  by (simp_all add: populated_world_def populated_context_def create_def DynamicsWorld_new_def Let_def)

lemma emptied_world_reached:
  "run [PushBack example_box, Update 60, Erase 0] (create 0) = Inr emptied_world"
  by (simp add: emptied_world_def emptied_context_def example_box_def create_def
      DynamicsWorld_new_def new_btDiscreteDynamicsWorld_def setGravity_def pushBack_def
      addRigidBody_def toBulletRigidBody_def update_eq wake_all_def woken_def wake_calls_def
      stepSimulation_def erase_def erase_steps_def erase_unregister_def erase_registry_def
      removeRigidBody_def getCollisionObjectArray_def Let_def)

lemma stray_world_fields:
  "mWorld stray_world = Some stray_context"
  "mNumObjects stray_world = 0"
  "m_collisionObjects stray_context = [\<lparr> body_id = 3, internalType = OTHER_OBJECT, isActive = False \<rparr>]"
  "calls stray_context = []"
  by (simp_all add: stray_world_def stray_context_def create_def DynamicsWorld_new_def Let_def)

subsection \<open>What a call leaves alone\<close>

lemma pushBack_frame:
  assumes "pushBack object w = Inr w'"
  shows "mBroadphase w' = mBroadphase w \<and> mCollisionConfiguration w' = mCollisionConfiguration w \<and>
    mDispatcher w' = mDispatcher w \<and> mSolver w' = mSolver w \<and>
    mNumObjects w' = mNumObjects w \<and> (mWorld w' = None \<longleftrightarrow> mWorld w = None)"
  using assms
  by (auto simp add: pushBack_def Let_def split: if_splits option.splits)

lemma erase_frame:
  assumes "erase pos w = Inr (next_pos, w')"
  shows "mBroadphase w' = mBroadphase w \<and> mCollisionConfiguration w' = mCollisionConfiguration w \<and>
    mDispatcher w' = mDispatcher w \<and> mSolver w' = mSolver w \<and>
    mNumObjects w' = mNumObjects w \<and> (mWorld w' = None \<longleftrightarrow> mWorld w = None)"
  using assms
  by (auto simp add: erase_def erase_steps_def erase_unregister_def erase_registry_def
      split: if_splits option.splits sum.splits)

lemma update_without_context:
  "mWorld w = None \<Longrightarrow> update frameRate w = Inl NullPointerDereference"
  by (simp add: update_def)

lemma update_frame:
  assumes "update frameRate w = Inr w'"
  shows "mBroadphase w' = mBroadphase w \<and> mCollisionConfiguration w' = mCollisionConfiguration w \<and>
    mDispatcher w' = mDispatcher w \<and> mSolver w' = mSolver w \<and>
    mObjects w' = mObjects w \<and> (mWorld w' = None \<longleftrightarrow> mWorld w = None)"
proof (cases "mWorld w")
  case None
  with assms show ?thesis
    by (simp add: update_without_context)
next
  case (Some bw)
  with assms show ?thesis
    by (auto simp add: update_eq split: if_splits)
qed

lemma update_assigns:
  assumes "update frameRate w = Inr w'"
  shows "mNumObjects w' = (if reaches_count_update w then live_count w else mNumObjects w)"
proof (cases "mWorld w")
  case None
  with assms show ?thesis
    by (simp add: update_without_context)
next
  case (Some bw)
  with assms show ?thesis
    by (auto simp add: update_eq reaches_count_update_def live_count_def
        getCollisionObjectArray_def split: if_splits)
qed

lemma update_when_count_stable:
  assumes "mWorld w = Some bw"
    and "mNumObjects w = of_nat (length (m_collisionObjects bw))"
  shows "update frameRate w =
    Inr (w\<lparr> mNumObjects := of_nat (length (m_collisionObjects bw)),
             mWorld := Some (stepSimulation 1 10 (1 / max 1 frameRate) bw) \<rparr>)"
  using assms by (simp add: update_eq)

lemma length_wake_all_objects:
  "length (m_collisionObjects (wake_all n bw)) = length (m_collisionObjects bw)"
  by simp

lemma wake_all_body_ids:
  "map body_id (m_collisionObjects (wake_all n bw)) = map body_id (m_collisionObjects bw)"
  by (simp only: wake_all_objects body_ids_wake_all)

lemma woken_active:
  "internalType b = RIGID_BODY \<or> internalType b = SOFT_BODY \<Longrightarrow> isActive (woken b)"
  by (auto simp add: woken_def)

lemma woken_kind [simp]: "internalType (woken b) = internalType b"
  by (simp add: woken_def)

lemma apply_operation_pointers:
  assumes "apply_operation operation w = Inr w'"
  shows "mBroadphase w' = mBroadphase w \<and> mCollisionConfiguration w' = mCollisionConfiguration w \<and>
    mDispatcher w' = mDispatcher w \<and> mSolver w' = mSolver w \<and>
    (mWorld w' = None \<longleftrightarrow> mWorld w = None)"
proof (cases operation)
  case (PushBack object)
  with assms show ?thesis
    using pushBack_frame [of object w w'] by simp
next
  case (Erase pos)
  with assms obtain next_pos where "erase pos w = Inr (next_pos, w')"
    by (auto split: sum.splits)
  then show ?thesis
    using erase_frame [of pos w next_pos w'] by simp
next
  case (Update frameRate)
  with assms show ?thesis
    using update_frame [of frameRate w w'] by simp
qed

lemma run_pointers:
  "run operations w = Inr w' \<Longrightarrow>
   mBroadphase w' = mBroadphase w \<and> mCollisionConfiguration w' = mCollisionConfiguration w \<and>
   mDispatcher w' = mDispatcher w \<and> mSolver w' = mSolver w \<and>
   (mWorld w' = None \<longleftrightarrow> mWorld w = None)"
proof (induction operations arbitrary: w)
  case Nil
  then show ?case by simp
next
  case (Cons operation operations)
  from Cons.prems obtain w1 where first: "apply_operation operation w = Inr w1"
    and rest: "run operations w1 = Inr w'"
    by (auto split: sum.splits)
  from apply_operation_pointers [OF first] Cons.IH [OF rest] show ?case
    by simp
qed

lemma create_pointers:
  "mBroadphase (create t) \<noteq> None" "mCollisionConfiguration (create t) \<noteq> None"
  "mDispatcher (create t) \<noteq> None" "mWorld (create t) \<noteq> None" "mSolver (create t) \<noteq> None"
  by (simp_all add: create_def DynamicsWorld_new_def Let_def)

lemma apply_operation_assigns:
  assumes "apply_operation operation w = Inr w'"
  shows "mNumObjects w' =
    (case operation of
       Update frameRate \<Rightarrow> if reaches_count_update w then live_count w else mNumObjects w
     | PushBack object \<Rightarrow> mNumObjects w
     | Erase pos \<Rightarrow> mNumObjects w)"
proof (cases operation)
  case (PushBack object)
  with assms show ?thesis
    using pushBack_frame [of object w w'] by simp
next
  case (Erase pos)
  with assms obtain next_pos where "erase pos w = Inr (next_pos, w')"
    by (auto split: sum.splits)
  with Erase show ?thesis
    using erase_frame [of pos w next_pos w'] by simp
next
  case (Update frameRate)
  with assms show ?thesis
    using update_assigns [of frameRate w w'] by simp
qed

lemma run_assigns:
  "run operations w = Inr w' \<Longrightarrow> mNumObjects w' = recorded_count operations w (mNumObjects w)"
proof (induction operations arbitrary: w)
  case Nil
  then show ?case by simp
next
  case (Cons operation operations)
  from Cons.prems obtain w1 where first: "apply_operation operation w = Inr w1"
    and rest: "run operations w1 = Inr w'"
    by (auto split: sum.splits)
  from apply_operation_assigns [OF first] Cons.IH [OF rest] first show ?case
    by simp
qed

subsection \<open>pushBack, by kind\<close>

lemma pushBack_rigid:
  assumes "mWorld w = Some bw" and "isRigidBody object"
  shows "pushBack object w =
    Inr (w\<lparr> mObjects := mObjects w @ [object],
             mWorld := Some (bw\<lparr> m_collisionObjects := m_collisionObjects bw @ [getBulletBody object],
                                calls := calls bw @ [Call_addRigidBody (body_id (getBulletBody object))] \<rparr>) \<rparr>)"
  using assms by (simp add: pushBack_def Let_def addRigidBody_def toBulletRigidBody_def)

lemma pushBack_soft:
  assumes "mWorld w = Some bw" and "\<not> isRigidBody object" and "isSoftBody object"
  shows "pushBack object w = Inl InvalidDowncast"
  using assms by (simp add: pushBack_def Let_def)

lemma run_append:
  "run (operations @ later) w =
     (case run operations w of Inl e \<Rightarrow> Inl e | Inr w1 \<Rightarrow> run later w1)"
  by (induction operations arbitrary: w) (simp_all split: sum.splits)

subsection \<open>Registry and simulation context reconcile for rigid objects\<close>

lemma nth_after_erase:
  assumes "Suc pos < length xs"
  shows "(take pos xs @ drop (Suc pos) xs) ! pos = xs ! Suc pos"
  using assms by (simp add: nth_append)

lemma remove_body_present:
  "a \<in> set (map body_id bs) \<Longrightarrow>
   mset (map body_id (remove_body a bs)) = mset (map body_id bs) - {#a#}"
  by (induction bs) auto

lemma mset_erase_position:
  assumes "pos < length xs"
  shows "mset (take pos xs @ drop (Suc pos) xs) = mset xs - {#xs ! pos#}"
proof -
  have "xs = take pos xs @ xs ! pos # drop (Suc pos) xs"
    using assms by (rule id_take_nth_drop)
  then have "mset xs = mset (take pos xs @ drop (Suc pos) xs) + {#xs ! pos#}"
    by (metis mset.simps(2) mset_append union_mset_add_mset_right add_mset_add_single)
  then show ?thesis
    by simp
qed

lemma reconciled_counts:
  assumes "registry_reconciled w"
  shows "\<exists>bw. mWorld w = Some bw \<and> length (mObjects w) = length (getCollisionObjectArray bw)"
proof -
  from assms obtain bw where ctx: "mWorld w = Some bw"
    and same: "mset (map (\<lambda>object. body_id (getBulletBody object)) (mObjects w)) =
          mset (map body_id (getCollisionObjectArray bw))"
    by (auto simp add: registry_reconciled_def split: option.splits)
  from same have "size (mset (map (\<lambda>object. body_id (getBulletBody object)) (mObjects w))) =
      size (mset (map body_id (getCollisionObjectArray bw)))"
    by simp
  with ctx show ?thesis
    by simp
qed

lemma create_reconciled: "registry_reconciled (create t)"
  by (simp add: registry_reconciled_def create_def DynamicsWorld_new_def Let_def
      new_btDiscreteDynamicsWorld_def setGravity_def getCollisionObjectArray_def)

lemma pushBack_reconciled:
  assumes "registry_reconciled w" and "isRigidBody object"
  shows "\<exists>w'. pushBack object w = Inr w' \<and> registry_reconciled w' \<and>
    length (mObjects w') = Suc (length (mObjects w))"
  using assms
  by (auto simp add: registry_reconciled_def pushBack_def Let_def addRigidBody_def
      toBulletRigidBody_def getCollisionObjectArray_def split: option.splits)

lemma erase_reconciled:
  assumes "registry_reconciled w" and "pos < length (mObjects w)"
  shows "\<exists>w'. erase pos w = Inr (pos, w') \<and> registry_reconciled w' \<and>
    length (mObjects w') = length (mObjects w) - 1"
proof -
  from assms(1) obtain bw where ctx: "mWorld w = Some bw"
    and kinds: "list_all isRigidBody (mObjects w)"
    and same: "mset (map (\<lambda>object. body_id (getBulletBody object)) (mObjects w)) =
          mset (map body_id (m_collisionObjects bw))"
    by (auto simp add: registry_reconciled_def getCollisionObjectArray_def split: option.splits)
  let ?object = "mObjects w ! pos"
  let ?a = "body_id (getBulletBody ?object)"
  from kinds assms(2) have kind: "isRigidBody ?object"
    by (simp add: list_all_length)
  have "?a \<in># mset (map (\<lambda>object. body_id (getBulletBody object)) (mObjects w))"
    using assms(2) by simp
  with same have present: "?a \<in> set (map body_id (m_collisionObjects bw))"
    by (metis set_mset_mset)
  let ?rest = "take pos (mObjects w) @ drop (Suc pos) (mObjects w)"
  have "mset (map (\<lambda>object. body_id (getBulletBody object)) ?rest) =
      mset (map (\<lambda>object. body_id (getBulletBody object)) (mObjects w)) - {#?a#}"
    using mset_erase_position [of pos "map (\<lambda>object. body_id (getBulletBody object)) (mObjects w)"]
      assms(2)
    by (simp add: take_map drop_map)
  also have "\<dots> = mset (map body_id (remove_body ?a (m_collisionObjects bw)))"
    using remove_body_present [OF present] same by simp
  finally have same': "mset (map (\<lambda>object. body_id (getBulletBody object)) ?rest) =
      mset (map body_id (remove_body ?a (m_collisionObjects bw)))" .
  have kinds': "list_all isRigidBody ?rest"
    using kinds by (auto simp add: list_all_iff dest: in_set_takeD in_set_dropD)
  let ?bw1 = "bw\<lparr> m_collisionObjects := remove_body ?a (m_collisionObjects bw),
      calls := calls bw @ [Call_removeRigidBody ?a] \<rparr>"
  let ?w' = "w\<lparr> mWorld := Some ?bw1, mObjects := ?rest \<rparr>"
  have "erase pos w = Inr (pos, ?w')"
    using assms(2) ctx kind
    by (simp add: erase_def erase_steps_def erase_unregister_def erase_registry_def
        removeRigidBody_def toBulletRigidBody_def)
  moreover have "registry_reconciled ?w'"
    using same' kinds' by (simp add: registry_reconciled_def getCollisionObjectArray_def)
  moreover have "length (mObjects ?w') = length (mObjects w) - 1"
    using assms(2) by simp
  ultimately show ?thesis
    by blast
qed

lemma reconciled_transfer:
  assumes "registry_reconciled w"
    and "mWorld w = Some bw" and "mWorld w' = Some bw'"
    and "mObjects w' = mObjects w"
    and "map body_id (m_collisionObjects bw') = map body_id (m_collisionObjects bw)"
  shows "registry_reconciled w'"
proof -
  from assms(5) have "mset (map body_id (m_collisionObjects bw')) =
      mset (map body_id (m_collisionObjects bw))"
    by (rule arg_cong)
  with assms(1-4) show ?thesis
    by (simp add: registry_reconciled_def getCollisionObjectArray_def)
qed

lemma update_reconciled:
  assumes "registry_reconciled w"
  shows "\<exists>w'. update frameRate w = Inr w' \<and> registry_reconciled w' \<and>
    length (mObjects w') = length (mObjects w)"
proof -
  from assms obtain bw where ctx: "mWorld w = Some bw"
    by (auto simp add: registry_reconciled_def split: option.splits)
  let ?n = "of_nat (length (m_collisionObjects bw)) :: 32 word"
  show ?thesis
  proof (cases "mNumObjects w \<noteq> ?n \<and> ?n = 0")
    case True
    then have "mNumObjects w \<noteq> ?n" and "?n = 0"
      by blast+
    with ctx have "update frameRate w = Inr w"
      by (simp add: update_eq)
    with assms show ?thesis
      by simp
  next
    case False
    let ?bw1 = "stepSimulation 1 10 (1 / max 1 frameRate)
      (if mNumObjects w \<noteq> ?n then wake_all ?n bw else bw)"
    let ?w1 = "w\<lparr> mNumObjects := ?n, mWorld := Some ?bw1 \<rparr>"
    have upd: "update frameRate w = Inr ?w1"
      using ctx False by (auto simp add: update_eq)
    have ids: "map body_id (m_collisionObjects ?bw1) = map body_id (m_collisionObjects bw)"
      by (simp add: wake_all_body_ids del: wake_all_objects)
    have "registry_reconciled ?w1"
      using assms ctx _ _ ids by (rule reconciled_transfer) simp_all
    with upd show ?thesis
      by simp
  qed
qed

lemma run_reconciled:
  "registry_reconciled w \<Longrightarrow> rigid_calls operations (length (mObjects w)) \<Longrightarrow>
   \<exists>w'. run operations w = Inr w' \<and> registry_reconciled w'"
proof (induction operations arbitrary: w)
  case Nil
  then show ?case by simp
next
  case (Cons operation operations)
  have "\<exists>w1. apply_operation operation w = Inr w1 \<and> registry_reconciled w1 \<and>
      rigid_calls operations (length (mObjects w1))"
  proof (cases operation)
    case (PushBack object)
    with Cons.prems pushBack_reconciled [of w object] show ?thesis
      by auto
  next
    case (Erase pos)
    with Cons.prems erase_reconciled [of w pos] show ?thesis
      by auto
  next
    case (Update frameRate)
    with Cons.prems update_reconciled [of w frameRate] show ?thesis
      by auto
  qed
  then obtain w1 where first: "apply_operation operation w = Inr w1"
    and inv: "registry_reconciled w1" and rest: "rigid_calls operations (length (mObjects w1))"
    by blast
  from Cons.IH [OF inv rest] first show ?case
    by simp
qed

lemma rigid_calls_take: "rigid_calls operations n \<Longrightarrow> rigid_calls (take k operations) n"
proof (induction operations n arbitrary: k rule: rigid_calls.induct)
  case (1 n)
  then show ?case by simp
next
  case (2 object operations n)
  then show ?case by (cases k) simp_all
next
  case (3 pos operations n)
  then show ?case by (cases k) simp_all
next
  case (4 frameRate operations n)
  then show ?case by (cases k) simp_all
qed

text \<open>
  Where the registration is defined it holds: along a sequence of calls on a new World
  in which every object appended reports rigid and every position erased is one of the
  registry, every call returns, and after every prefix the registry and the simulation
  context hold the same native bodies, so the registry has as many entries as the
  context has live objects.
\<close>

lemma rigid_calls_reconcile:
  assumes "rigid_calls operations 0"
  shows "\<exists>w bw. run (take k operations) (create t) = Inr w \<and> mWorld w = Some bw \<and>
    mset (map (\<lambda>object. body_id (getBulletBody object)) (mObjects w)) =
      mset (map body_id (getCollisionObjectArray bw)) \<and>
    length (mObjects w) = length (getCollisionObjectArray bw)"
proof -
  have empty: "length (mObjects (create t)) = 0"
    by (simp add: create_def DynamicsWorld_new_def Let_def)
  from assms have "rigid_calls (take k operations) (length (mObjects (create t)))"
    unfolding empty by (rule rigid_calls_take)
  with create_reconciled obtain w where ran: "run (take k operations) (create t) = Inr w"
    and inv: "registry_reconciled w"
    using run_reconciled by blast
  from reconciled_counts [OF inv] obtain bw where ctx: "mWorld w = Some bw"
    and eq: "length (mObjects w) = length (getCollisionObjectArray bw)"
    by blast
  from inv ctx have "mset (map (\<lambda>object. body_id (getBulletBody object)) (mObjects w)) =
      mset (map body_id (getCollisionObjectArray bw))"
    by (simp add: registry_reconciled_def)
  with ran ctx eq show ?thesis
    by blast
qed

section \<open>The claims\<close>

text \<open>
  C1 fails on a soft object. In every World reached from a new World by calls that
  returned, \<open>pushBack\<close> of an object that reports soft and not rigid has no defined
  result: line 100 calls \<open>addSoftBody\<close> through a pointer cast down to
  \<open>btSoftRigidDynamicsWorld*\<close>, and the simulation context is the
  \<open>btDiscreteDynamicsWorld\<close> of line 42. A sequence of calls that appends a soft
  object therefore has no World in which the registry and the live objects of the
  context could be counted.
\<close>

theorem soft_pushBack_undefined:
  assumes "run operations (create t) = Inr w"
    and "\<not> isRigidBody object"
    and "isSoftBody object"
  shows "pushBack object w = Inl InvalidDowncast \<and>
    run (operations @ [PushBack object]) (create t) = Inl InvalidDowncast"
proof -
  from run_pointers [OF assms(1)] create_pointers(4) [of t] obtain bw where "mWorld w = Some bw"
    by auto
  then have "pushBack object w = Inl InvalidDowncast"
    using assms(2,3) by (rule pushBack_soft)
  with assms(1) show ?thesis
    by (simp add: run_append)
qed

theorem soft_pushBack_undefined_witness:
  "run [] (create 0) = Inr (create 0) \<and>
   \<not> isRigidBody example_cloth \<and>
   isSoftBody example_cloth \<and>
   pushBack example_cloth (create 0) = Inl InvalidDowncast \<and>
   run [PushBack example_cloth] (create 0) = Inl InvalidDowncast"
proof -
  have start: "run [] (create 0) = Inr (create 0)"
    by simp
  have kind: "\<not> isRigidBody example_cloth" "isSoftBody example_cloth"
    by (simp_all add: example_cloth_def)
  from soft_pushBack_undefined [OF start kind] start kind show ?thesis
    by simp
qed

text \<open>
  C2, as the source has it. \<open>update\<close> returns in every World that has a simulation
  context. When the live count is zero and differs from the last-observed count, the
  call returns early and the last-observed count keeps its value; after every other
  call, also one in which the count has not changed, the last-observed count is the
  live count that the call read from the context at its start.
\<close>

theorem update_records_count:
  assumes "mWorld w = Some bw"
    and "numObjects = of_nat (length (getCollisionObjectArray bw))"
  shows "\<exists>w'. update frameRate w = Inr w' \<and>
    mNumObjects w' =
      (if mNumObjects w \<noteq> numObjects \<and> numObjects = 0 then mNumObjects w else numObjects)"
  using assms by (simp add: update_eq getCollisionObjectArray_def)

theorem update_records_count_witness:
  "mWorld populated_world = Some populated_context \<and>
   (2 :: 32 word) = of_nat (length (getCollisionObjectArray populated_context)) \<and>
   mNumObjects populated_world = 0 \<and>
   (\<exists>w'. update 60 populated_world = Inr w' \<and> mNumObjects w' = 2)"
  using update_records_count [of populated_world populated_context 2 60]
  by (simp add: populated_world_fields getCollisionObjectArray_def)

text \<open>
  C2, as the claim has it, fails. A box is appended to a new World, \<open>update\<close> runs,
  the box is erased, and \<open>update\<close> runs again: the second \<open>update\<close> reads a live
  count of zero and returns the World as it was, with a last-observed count of one.
\<close>

theorem update_count_counterexample:
  "run [PushBack example_box, Update 60, Erase 0] (create 0) = Inr emptied_world \<and>
   mWorld emptied_world = Some emptied_context \<and>
   update 60 emptied_world = Inr emptied_world \<and>
   mNumObjects emptied_world = 1 \<and>
   length (getCollisionObjectArray emptied_context) = 0 \<and>
   mNumObjects emptied_world \<noteq> of_nat (length (getCollisionObjectArray emptied_context))"
  using emptied_world_reached
  by (simp add: emptied_world_fields update_eq getCollisionObjectArray_def)

text \<open>
  C3. When the simulation context has no live object and the last-observed count is
  not zero, \<open>update\<close> returns the World it was given: no object is activated, no
  step is requested, no member changes.
\<close>

theorem update_noop_on_empty_world:
  assumes "mWorld w = Some bw"
    and "getCollisionObjectArray bw = []"
    and "mNumObjects w \<noteq> 0"
  shows "update frameRate w = Inr w"
  using assms by (simp add: update_eq getCollisionObjectArray_def)

theorem update_noop_on_empty_world_witness:
  "mWorld emptied_world = Some emptied_context \<and>
   getCollisionObjectArray emptied_context = [] \<and>
   mNumObjects emptied_world \<noteq> 0 \<and>
   update 60 emptied_world = Inr emptied_world"
  using update_noop_on_empty_world [of emptied_world emptied_context 60]
  by (simp add: emptied_world_fields getCollisionObjectArray_def)

text \<open>
  C4, as the source has it. Whatever calls a World has served since it was created,
  its destructor deletes all five structures, in this order: broadphase, collision
  configuration, dispatcher, simulation context, constraint solver. The simulation
  context is deleted after three of the structures it was built from and before the
  fourth, the constraint solver.
\<close>

theorem destructor_order:
  assumes "run operations (create t) = Inr w"
  shows "DynamicsWorld_delete w =
     [Delete_mBroadphase, Delete_mCollisionConfiguration, Delete_mDispatcher, Delete_mWorld,
      Delete_mSolver]"
  using run_pointers [OF assms] create_pointers [of t]
  by (simp add: DynamicsWorld_delete_def)

theorem destructor_order_witness:
  "run [PushBack example_box, Update 60, Erase 0] (create 0) = Inr emptied_world \<and>
   DynamicsWorld_delete emptied_world =
     [Delete_mBroadphase, Delete_mCollisionConfiguration, Delete_mDispatcher, Delete_mWorld,
      Delete_mSolver]"
  using destructor_order [OF emptied_world_reached] emptied_world_reached
  by simp

text \<open>
  C4, as the claim has it, fails: the last structure that the destructor of a new World
  deletes is the constraint solver, not the simulation context.
\<close>

theorem destructor_order_counterexample:
  "DynamicsWorld_delete (create 0) =
     [Delete_mBroadphase, Delete_mCollisionConfiguration, Delete_mDispatcher, Delete_mWorld,
      Delete_mSolver] \<and>
   last (DynamicsWorld_delete (create 0)) = Delete_mSolver \<and>
   last (DynamicsWorld_delete (create 0)) \<noteq> Delete_mWorld"
  by (simp add: DynamicsWorld_delete_def create_pointers)

text \<open>
  C5, as the source has it for an object that reports rigid or reports neither kind.
  Let \<open>pos\<close> be a position of the registry of a World with a simulation context.
  When the object there reports rigid, \<open>erase\<close> first sends the context the request
  \<open>removeRigidBody\<close> for the native body of that very object, which takes one live
  object with the address of that body out of the context; between the two statements
  of \<open>erase\<close> the registry is still whole. When the object reports neither kind, the
  World between the two statements is the World at the call: the context gets no
  request. Only then does \<open>erase\<close> remove the entry from the registry; nothing else
  changes in that step. The registry loses exactly the entry at \<open>pos\<close>. The
  position returned is \<open>pos\<close>, where the entry that followed the erased one now
  is, and it is end-of-sequence when the erased entry was the last. (What \<open>erase\<close>
  does to an object that reports soft is in C1.)
\<close>

theorem erase_unregisters_then_removes:
  assumes "mWorld w = Some bw"
    and "pos < length (mObjects w)"
    and "object = mObjects w ! pos"
    and "isRigidBody object \<or> \<not> isSoftBody object"
  shows "\<exists>w1 w'.
    erase_steps pos w = Inr (w1, pos, w') \<and>
    erase pos w = Inr (pos, w') \<and>
    mObjects w1 = mObjects w \<and>
    w1 =
      (if isRigidBody object
       then w\<lparr> mWorld := Some
                (bw\<lparr> m_collisionObjects :=
                        remove_body (body_id (getBulletBody object)) (m_collisionObjects bw),
                      calls := calls bw @ [Call_removeRigidBody (body_id (getBulletBody object))] \<rparr>) \<rparr>
       else w) \<and>
    w' = w1\<lparr> mObjects := take pos (mObjects w) @ drop (Suc pos) (mObjects w) \<rparr> \<and>
    Suc (length (mObjects w')) = length (mObjects w) \<and>
    (if Suc pos < length (mObjects w) then mObjects w' ! pos = mObjects w ! Suc pos
     else pos = end_iter w')"
proof -
  define w1 where "w1 =
      (if isRigidBody object
       then w\<lparr> mWorld := Some
                (bw\<lparr> m_collisionObjects :=
                        remove_body (body_id (getBulletBody object)) (m_collisionObjects bw),
                      calls := calls bw @ [Call_removeRigidBody (body_id (getBulletBody object))] \<rparr>) \<rparr>
       else w)"
  define w' where "w' = w1\<lparr> mObjects := take pos (mObjects w) @ drop (Suc pos) (mObjects w) \<rparr>"
  have unreg: "erase_unregister pos w = Inr w1"
    using assms
    by (auto simp add: erase_unregister_def w1_def removeRigidBody_def toBulletRigidBody_def)
  have objs1: "mObjects w1 = mObjects w"
    by (simp add: w1_def)
  have reg: "erase_registry pos w1 = Inr (pos, w')"
    using assms(2) by (simp add: erase_registry_def w'_def objs1)
  have steps: "erase_steps pos w = Inr (w1, pos, w')"
    by (simp add: erase_steps_def unreg reg)
  have whole: "erase pos w = Inr (pos, w')"
    by (simp add: erase_def steps)
  have objs': "mObjects w' = take pos (mObjects w) @ drop (Suc pos) (mObjects w)"
    by (simp add: w'_def)
  have len: "Suc (length (mObjects w')) = length (mObjects w)"
    using assms(2) by (simp add: objs')
  have after: "if Suc pos < length (mObjects w) then mObjects w' ! pos = mObjects w ! Suc pos
     else pos = end_iter w'"
    using assms(2) by (simp add: objs' nth_after_erase end_iter_def)
  from steps whole objs1 len after show ?thesis
    using w1_def w'_def by blast
qed

theorem erase_unregisters_then_removes_witness:
  "mWorld populated_world = Some populated_context \<and>
   0 < length (mObjects populated_world) \<and>
   example_box = mObjects populated_world ! 0 \<and>
   isRigidBody example_box \<and>
   (\<exists>w1 bw1 w'.
      erase_steps 0 populated_world = Inr (w1, 0, w') \<and>
      erase 0 populated_world = Inr (0, w') \<and>
      mObjects w1 = [example_box, example_cloth] \<and>
      mWorld w1 = Some bw1 \<and>
      m_collisionObjects bw1 = [getBulletBody example_cloth] \<and>
      calls bw1 = [Call_addRigidBody 1, Call_removeRigidBody 1] \<and>
      mObjects w' = [example_cloth] \<and>
      mWorld w' = Some bw1 \<and>
      mObjects w' ! 0 = mObjects populated_world ! 1)"
proof -
  have ctx: "mWorld populated_world = Some populated_context"
    and pos: "0 < length (mObjects populated_world)"
    and obj: "example_box = mObjects populated_world ! 0"
    and kind: "isRigidBody example_box \<or> \<not> isSoftBody example_box"
    by (simp_all add: populated_world_fields example_box_def)
  from erase_unregisters_then_removes [OF ctx pos obj kind] obtain w1 w'
    where steps: "erase_steps 0 populated_world = Inr (w1, 0, w')"
      and whole: "erase 0 populated_world = Inr (0, w')"
      and w1: "w1 = populated_world\<lparr> mWorld := Some
                (populated_context\<lparr> m_collisionObjects :=
                        remove_body (body_id (getBulletBody example_box))
                          (m_collisionObjects populated_context),
                      calls := calls populated_context @
                        [Call_removeRigidBody (body_id (getBulletBody example_box))] \<rparr>) \<rparr>"
      and w': "w' = w1\<lparr> mObjects := take 0 (mObjects populated_world) @
                  drop (Suc 0) (mObjects populated_world) \<rparr>"
    by (auto simp add: example_box_def)
  let ?bw1 = "populated_context\<lparr> m_collisionObjects :=
                        remove_body (body_id (getBulletBody example_box))
                          (m_collisionObjects populated_context),
                      calls := calls populated_context @
                        [Call_removeRigidBody (body_id (getBulletBody example_box))] \<rparr>"
  have rigid: "isRigidBody example_box"
    by (simp add: example_box_def)
  have "mObjects w1 = [example_box, example_cloth]" "mWorld w1 = Some ?bw1"
    "m_collisionObjects ?bw1 = [getBulletBody example_cloth]"
    "calls ?bw1 = [Call_addRigidBody 1, Call_removeRigidBody 1]"
    "mObjects w' = [example_cloth]" "mWorld w' = Some ?bw1"
    "mObjects w' ! 0 = mObjects populated_world ! 1"
    by (simp_all add: w1 w' populated_world_fields example_box_def example_cloth_def)
  with steps whole have "\<exists>w1 bw1 w'.
      erase_steps 0 populated_world = Inr (w1, 0, w') \<and>
      erase 0 populated_world = Inr (0, w') \<and>
      mObjects w1 = [example_box, example_cloth] \<and>
      mWorld w1 = Some bw1 \<and>
      m_collisionObjects bw1 = [getBulletBody example_cloth] \<and>
      calls bw1 = [Call_addRigidBody 1, Call_removeRigidBody 1] \<and>
      mObjects w' = [example_cloth] \<and>
      mWorld w' = Some bw1 \<and>
      mObjects w' ! 0 = mObjects populated_world ! 1"
    by blast
  with ctx pos obj rigid show ?thesis
    by blast
qed

text \<open>
  C5, as the claim has it, fails at a position whose object reports neither kind. An
  object of neither kind is appended to a new World and its position erased: the World
  between the two statements of \<open>erase\<close> is the World at the call, so the context has
  received no request, and the entry is removed all the same.
\<close>

theorem erase_unregisters_counterexample:
  "run [PushBack example_marker] (create 0) = Inr marker_world \<and>
   mObjects marker_world = [example_marker] \<and>
   mWorld marker_world = mWorld (create 0) \<and>
   erase_steps 0 marker_world = Inr (marker_world, 0, create 0) \<and>
   erase 0 marker_world = Inr (0, create 0)"
proof -
  have empty: "mObjects (create 0) = []"
    by (simp add: create_def DynamicsWorld_new_def Let_def)
  have pushed: "run [PushBack example_marker] (create 0) = Inr marker_world"
    by (simp add: pushBack_def Let_def example_marker_def marker_world_def empty)
  have objs: "mObjects marker_world = [example_marker]"
    by (simp add: marker_world_def)
  have ctx: "mWorld marker_world = mWorld (create 0)"
    by (simp add: marker_world_def)
  have restored: "marker_world\<lparr>mObjects := []\<rparr> = create 0"
    by (simp add: marker_world_def create_def DynamicsWorld_new_def Let_def)
  have "erase_steps 0 marker_world = Inr (marker_world, 0, marker_world\<lparr>mObjects := []\<rparr>)"
    by (simp add: erase_steps_def erase_unregister_def erase_registry_def objs example_marker_def)
  then have steps: "erase_steps 0 marker_world = Inr (marker_world, 0, create 0)"
    by (simp only: restored)
  then have "erase 0 marker_world = Inr (0, create 0)"
    by (simp add: erase_def)
  with pushed objs ctx steps show ?thesis
    by simp
qed

text \<open>
  C6, as the source has it. Let the simulation context of a World hold at least one live
  object and fewer than \<open>2 ^ 32\<close> (the engine counts them in a C++ \<open>int\<close>), and let
  their number differ from the last-observed count. Then \<open>update\<close> returns, and on
  its way it sends one activation request for each live object that is a rigid body or
  a soft body, in the order of the array and before the step: to a rigid body as a
  rigid body, to a soft body as a soft body, each with forced activation. Afterwards
  every live rigid or soft body is active. A live object that is neither a rigid nor a
  soft body gets no request and stays as it is.
\<close>

theorem update_activates_all:
  assumes "mWorld w = Some bw"
    and "objects = getCollisionObjectArray bw"
    and "length objects < 2 ^ 32"
    and "objects \<noteq> []"
    and "mNumObjects w \<noteq> of_nat (length objects)"
  shows "\<exists>w' bw'. update frameRate w = Inr w' \<and> mWorld w' = Some bw' \<and>
    getCollisionObjectArray bw' = map woken objects \<and>
    calls bw' = calls bw @ concat (map wake_calls objects) @
      [Call_stepSimulation 1 10 (1 / max 1 frameRate)] \<and>
    (\<forall>b \<in> set objects.
       (internalType b = RIGID_BODY \<longrightarrow> wake_calls b = [Call_activateRigid (body_id b) True]) \<and>
       (internalType b = SOFT_BODY \<longrightarrow> wake_calls b = [Call_activateSoft (body_id b) True]) \<and>
       (internalType b = OTHER_OBJECT \<longrightarrow> wake_calls b = [] \<and> woken b = b)) \<and>
    (\<forall>b \<in> set (getCollisionObjectArray bw').
       internalType b = RIGID_BODY \<or> internalType b = SOFT_BODY \<longrightarrow> isActive b)"
proof -
  from assms have "(of_nat (length (m_collisionObjects bw)) :: 32 word) \<noteq> 0"
    by (simp add: count_nonzero getCollisionObjectArray_def)
  moreover from assms
  have "unat (of_nat (length (m_collisionObjects bw)) :: 32 word) = length (m_collisionObjects bw)"
    by (simp add: unat_count_eq getCollisionObjectArray_def)
  ultimately show ?thesis
    using assms
    by (auto simp add: update_eq getCollisionObjectArray_def wake_calls_def woken_active woken_def)
qed

theorem update_activates_all_witness:
  "mWorld populated_world = Some populated_context \<and>
   getCollisionObjectArray populated_context = [getBulletBody example_box, getBulletBody example_cloth] \<and>
   mNumObjects populated_world \<noteq> 2 \<and>
   (\<exists>w' bw'. update 60 populated_world = Inr w' \<and> mWorld w' = Some bw' \<and>
      getCollisionObjectArray bw' =
        [\<lparr> body_id = 1, internalType = RIGID_BODY, isActive = True \<rparr>,
         \<lparr> body_id = 2, internalType = SOFT_BODY, isActive = True \<rparr>] \<and>
      calls bw' = [Call_addRigidBody 1, Call_activateRigid 1 True,
        Call_activateSoft 2 True, Call_stepSimulation 1 10 (1 / 60)])"
  using update_activates_all [of populated_world populated_context
      "[getBulletBody example_box, getBulletBody example_cloth]" 60]
  by (auto simp add: populated_world_fields getCollisionObjectArray_def woken_def wake_calls_def
      example_box_def example_cloth_def)

text \<open>
  C6, as the claim has it, fails for a live object that is neither a rigid nor a soft
  body. The context holds one such object, inactive, and the last-observed count is 0:
  \<open>update\<close> takes the activation loop, sends the context nothing but the step
  request, records the count 1 and leaves the object inactive.
\<close>

theorem update_activates_counterexample:
  "mWorld stray_world = Some stray_context \<and>
   getCollisionObjectArray stray_context =
     [\<lparr> body_id = 3, internalType = OTHER_OBJECT, isActive = False \<rparr>] \<and>
   mNumObjects stray_world = 0 \<and>
   activation_pass_due stray_world \<and>
   update 60 stray_world =
     Inr (stray_world\<lparr> mNumObjects := 1,
            mWorld := Some (stray_context\<lparr> calls := [Call_stepSimulation 1 10 (1 / 60)] \<rparr>) \<rparr>) \<and>
   getCollisionObjectArray (stray_context\<lparr> calls := [Call_stepSimulation 1 10 (1 / 60)] \<rparr>) =
     [\<lparr> body_id = 3, internalType = OTHER_OBJECT, isActive = False \<rparr>]"
  by (simp add: stray_world_fields update_eq getCollisionObjectArray_def activation_pass_due_def
      wake_all_def woken_def wake_calls_def stepSimulation_def stray_context_def)

text \<open>
  C7. A call of \<open>update\<close> reaches the step unless the live count is zero and differs
  from the last-observed count. Such a call returns, and it sends the context exactly
  one step request, as its last request: horizon 1, at most 10 sub-steps, and sub-step
  duration 1 divided by the larger of 1 and the frame rate. The divisor is not zero and
  the duration is at most 1; at a frame rate of 0 the duration is 1. (Frame rate and
  durations are real numbers here.)
\<close>

theorem update_step_parameters:
  assumes "mWorld w = Some bw"
    and "numObjects = of_nat (length (getCollisionObjectArray bw))"
    and "mNumObjects w = numObjects \<or> numObjects \<noteq> 0"
  shows "\<exists>w' bw'. update frameRate w = Inr w' \<and> mWorld w' = Some bw' \<and>
    filter is_step (calls bw') =
      filter is_step (calls bw) @ [Call_stepSimulation 1 10 (1 / max 1 frameRate)] \<and>
    last (calls bw') = Call_stepSimulation 1 10 (1 / max 1 frameRate) \<and>
    max 1 frameRate \<noteq> 0 \<and>
    1 / max 1 frameRate \<le> 1 \<and>
    (if frameRate = 0 then last (calls bw') = Call_stepSimulation 1 10 1
     else 0 < 1 / max 1 frameRate)"
  using assms by (auto simp add: update_eq getCollisionObjectArray_def)

theorem update_step_parameters_witness:
  "mWorld populated_world = Some populated_context \<and>
   (2 :: 32 word) = of_nat (length (getCollisionObjectArray populated_context)) \<and>
   (\<exists>w' bw'. update 0 populated_world = Inr w' \<and> mWorld w' = Some bw' \<and>
      filter is_step (calls bw') = [Call_stepSimulation 1 10 1] \<and>
      last (calls bw') = Call_stepSimulation 1 10 1)"
  using update_step_parameters [of populated_world populated_context 2 0]
  by (simp add: populated_world_fields getCollisionObjectArray_def)



text \<open>
  C9. \<open>getNumObjects\<close> is 0 in a new World. \<open>pushBack\<close> and \<open>erase\<close> leave it as
  it is. \<open>update\<close> sets it to the live count when it reaches the assignment, and
  leaves it as it is when it returns early. So after any sequence of calls on a new
  World, \<open>getNumObjects\<close> is the count recorded by the most recent \<open>update\<close> that
  reached the assignment, and 0 when there was none, however many objects were appended
  or erased since.
\<close>

theorem getNumObjects_is_recorded_count:
  "getNumObjects (create t) = 0 \<and>
   (\<forall>object w0 w1. pushBack object w0 = Inr w1 \<longrightarrow> getNumObjects w1 = getNumObjects w0) \<and>
   (\<forall>pos w0 next_pos w1. erase pos w0 = Inr (next_pos, w1) \<longrightarrow>
      getNumObjects w1 = getNumObjects w0) \<and>
   (\<forall>frameRate w0 w1. update frameRate w0 = Inr w1 \<longrightarrow>
      getNumObjects w1 = (if reaches_count_update w0 then live_count w0 else getNumObjects w0)) \<and>
   (\<forall>operations w. run operations (create t) = Inr w \<longrightarrow>
      getNumObjects w = recorded_count operations (create t) 0)"
proof -
  have zero: "getNumObjects (create t) = 0"
    by (simp add: getNumObjects_def create_def DynamicsWorld_new_def Let_def)
  have "getNumObjects w = recorded_count operations (create t) 0"
    if "run operations (create t) = Inr w" for operations w
    using run_assigns [OF that] zero by (simp add: getNumObjects_def)
  with zero show ?thesis
    using pushBack_frame erase_frame update_assigns by (simp add: getNumObjects_def)
qed

theorem getNumObjects_is_recorded_count_witness:
  "run [PushBack example_box, Update 60, Erase 0] (create 0) = Inr emptied_world \<and>
   getNumObjects emptied_world =
     recorded_count [PushBack example_box, Update 60, Erase 0] (create 0) 0 \<and>
   getNumObjects emptied_world = 1 \<and>
   length (mObjects emptied_world) = 0"
proof -
  from getNumObjects_is_recorded_count [of 0] emptied_world_reached
  have "getNumObjects emptied_world =
      recorded_count [PushBack example_box, Update 60, Erase 0] (create 0) 0"
    by blast
  with emptied_world_reached show ?thesis
    by (simp add: getNumObjects_def emptied_world_fields)
qed

text \<open>
  C10. An object that reports to be neither rigid nor soft is appended to the registry by
  \<open>pushBack\<close>, and nothing else about the World changes: the simulation context gets
  no request. Wherever such an object stands in a registry, \<open>erase\<close> of its position
  sends the context no request either and removes the entry. Both calls return.
\<close>

theorem object_of_neither_kind:
  assumes "\<not> isRigidBody object" and "\<not> isSoftBody object"
  shows "pushBack object w = Inr (w\<lparr>mObjects := mObjects w @ [object]\<rparr>) \<and>
    (\<forall>w1 pos. pos < length (mObjects w1) \<and> mObjects w1 ! pos = object \<longrightarrow>
       erase_unregister pos w1 = Inr w1 \<and>
       erase pos w1 =
         Inr (pos, w1\<lparr>mObjects := take pos (mObjects w1) @ drop (Suc pos) (mObjects w1)\<rparr>))"
  using assms
  by (simp add: pushBack_def erase_def erase_steps_def erase_unregister_def erase_registry_def
      Let_def)

theorem object_of_neither_kind_witness:
  "\<not> isRigidBody example_marker \<and> \<not> isSoftBody example_marker \<and>
   pushBack example_marker (create 0) = Inr ((create 0)\<lparr>mObjects := [example_marker]\<rparr>) \<and>
   erase 0 ((create 0)\<lparr>mObjects := [example_marker]\<rparr>) = Inr (0, create 0)"
proof -
  have kind: "\<not> isRigidBody example_marker" "\<not> isSoftBody example_marker"
    by (simp_all add: example_marker_def)
  have empty: "mObjects (create 0) = []"
    by (simp add: create_def DynamicsWorld_new_def Let_def)
  from object_of_neither_kind [OF kind, of "create 0"]
  have push: "pushBack example_marker (create 0) = Inr ((create 0)\<lparr>mObjects := [example_marker]\<rparr>)"
    and er: "\<And>w1 pos. pos < length (mObjects w1) \<Longrightarrow> mObjects w1 ! pos = example_marker \<Longrightarrow>
      erase pos w1 =
        Inr (pos, w1\<lparr>mObjects := take pos (mObjects w1) @ drop (Suc pos) (mObjects w1)\<rparr>)"
    by (simp_all add: empty)
  have "erase 0 ((create 0)\<lparr>mObjects := [example_marker]\<rparr>) = Inr (0, (create 0)\<lparr>mObjects := []\<rparr>)"
    using er [of 0 "(create 0)\<lparr>mObjects := [example_marker]\<rparr>"] by simp
  also have "(create 0)\<lparr>mObjects := []\<rparr> = create 0"
    by (simp add: create_def DynamicsWorld_new_def Let_def)
  finally show ?thesis
    using kind push by simp
qed

end
